theory Spec2Isabelle
  imports Main "HOL-Library.Sublist" "HOL-Library.Word"
begin

section \<open>Strings and bytes\<close>

text \<open>
  A Python \<open>str\<close> is a sequence of Unicode code points, so it is modelled as a list of
  natural numbers; a \<open>bytes\<close> value is a list of 8-bit words. String literals of the
  source are written as HOL strings and injected with \<open>lit\<close>.
\<close>

type_synonym pystr = "nat list"
type_synonym byte = "8 word"

definition lit :: "string \<Rightarrow> pystr" where
  "lit s = map of_char s"

definition NL :: string where
  "NL = [CHR 0x0A]"

text \<open>
  \<open>str.strip(chars)\<close>: the longest prefix and the longest suffix made of characters of
  \<open>chars\<close> are removed.
\<close>

definition py_lstrip :: "pystr \<Rightarrow> pystr \<Rightarrow> pystr" where
  "py_lstrip chars s = dropWhile (\<lambda>c. c \<in> set chars) s"

definition py_rstrip :: "pystr \<Rightarrow> pystr \<Rightarrow> pystr" where
  "py_rstrip chars s = rev (dropWhile (\<lambda>c. c \<in> set chars) (rev s))"

definition py_strip :: "pystr \<Rightarrow> pystr \<Rightarrow> pystr" where
  "py_strip chars s = py_rstrip chars (py_lstrip chars s)"

text \<open>
  \<open>str.encode('ascii', 'replace')\<close>: a code point below 128 is its own byte, every other
  code point becomes the byte of \<open>?\<close>.
\<close>

definition encode_char :: "nat \<Rightarrow> byte" where
  "encode_char c = (if c < 128 then of_nat c else 0x3F)"

definition encode_ascii_replace :: "pystr \<Rightarrow> byte list" where
  "encode_ascii_replace text = map encode_char text"

section \<open>Exceptions, the log and the world\<close>

text \<open>
  Exceptions are values. Only exceptions of class \<open>Exception\<close> are modelled: they are what
  the collaborators (camera, services, device file) raise and what every handler of the
  source catches. The operator's interrupt is outside the model.
\<close>

datatype exn = ValueError string | OSError string | RuntimeError string

text \<open>One constructor for each call of \<open>logger\<close> on a modelled path, with the interpolated values.\<close>

datatype log_record =
    Printer_error exn
  | Environment_setup_failed exn
  | Hardware_initialization_successful
  | Hardware_initialization_failed exn
  | Printer_reset_warning exn
  | Hardware_reset_completed
  | Hardware_reset_failed exn
  | Photo_captured pystr
  | Failed_to_capture_photo exn
  | Generated_caption pystr
  | Failed_to_generate_caption exn
  | Poem_generated_successfully
  | Failed_to_generate_poem exn
  | Poem_printed_successfully
  | Failed_to_print_poem exn
  | Process_failed exn
  | Press_the_button
  | Waiting_for_button_press
  | Button_pressed
  | Process_completed_successfully
  | Process_failed_resetting_system
  | System_reset_completed
  | Process_failed_with_error exn
  | Failed_to_reset_hardware_after_error
  | Program_failed exn

text \<open>
  The trace records, in order, every entry into a method of the pipeline and every request
  made to a collaborator. It is an observation of the run, not a variable of the program.
  The requests carry what is sent: the path of the photo, and the system message and the
  user message of the composition request.
\<close>

datatype event =
    Take_photo | Generate_caption | Generate_poem | Print_poem | Print_text
  | Reset_hardware | Wait_for_press
  | Camera_capture pystr | Camera_stop | Camera_start
  | Vision_request pystr | Completion_request pystr pystr

text \<open>
  The world outside the program: the log, the trace, the bytes handed to the printer device
  by the \<open>write\<close> calls that returned (once the file is closed without an exception they
  have all reached the device), and the number of files open on the device.
\<close>

record world =
  log :: "log_record list"
  trace :: "event list"
  printer_bytes :: "byte list"
  open_files :: nat

definition world0 :: world where
  "world0 = \<lparr> log = [], trace = [], printer_bytes = [], open_files = 0 \<rparr>"

text \<open>A statement either returns a value or raises, and leaves a world behind.\<close>

type_synonym 'a prog = "world \<Rightarrow> (exn + 'a) \<times> world"

definition return :: "'a \<Rightarrow> 'a prog" where
  "return x w = (Inr x, w)"

definition raise :: "exn \<Rightarrow> 'a prog" where
  "raise e w = (Inl e, w)"

definition and_then :: "'a prog \<Rightarrow> ('a \<Rightarrow> 'b prog) \<Rightarrow> 'b prog" where
  "and_then m f w = (case m w of (Inl e, w') \<Rightarrow> (Inl e, w') | (Inr x, w') \<Rightarrow> f x w')"

definition seq :: "unit prog \<Rightarrow> 'b prog \<Rightarrow> 'b prog" where
  "seq m k = and_then m (\<lambda>_. k)"

definition try_except :: "'a prog \<Rightarrow> (exn \<Rightarrow> 'a prog) \<Rightarrow> 'a prog" where
  "try_except m handler w =
    (case m w of (Inl e, w') \<Rightarrow> handler e w' | (Inr x, w') \<Rightarrow> (Inr x, w'))"

definition logger :: "log_record \<Rightarrow> unit prog" where
  "logger r w = (Inr (), w\<lparr>log := log w @ [r]\<rparr>)"

definition enter :: "event \<Rightarrow> unit prog" where
  "enter ev w = (Inr (), w\<lparr>trace := trace w @ [ev]\<rparr>)"

text \<open>A request to a collaborator: it is recorded, then it returns or raises as the environment says.\<close>

definition request :: "event \<Rightarrow> exn + 'a \<Rightarrow> 'a prog" where
  "request ev reply = seq (enter ev) (case reply of Inl e \<Rightarrow> raise e | Inr x \<Rightarrow> return x)"

definition invoke :: "event \<Rightarrow> exn option \<Rightarrow> unit prog" where
  "invoke ev failure = seq (enter ev) (case failure of Some e \<Rightarrow> raise e | None \<Rightarrow> return ())"

section \<open>The printer device file\<close>

text \<open>
  How the device file behaves while it is opened once: \<open>open\<close> may raise, one of the
  \<open>write\<close> calls (numbered from 0) may raise, and closing it may raise. A \<open>write\<close> that
  returns has appended its bytes to the stream of the device; one that raises has added
  nothing.
\<close>

record device =
  open_error :: "exn option"
  write_error :: "(nat \<times> exn) option"
  close_error :: "exn option"

definition healthy :: device where
  "healthy = \<lparr> open_error = None, write_error = None, close_error = None \<rparr>"

definition dev_write :: "device \<Rightarrow> nat \<Rightarrow> byte list \<Rightarrow> unit prog" where
  "dev_write dev k bs w =
    (case write_error dev of
       Some (j, e) \<Rightarrow>
         if j = k then (Inl e, w) else (Inr (), w\<lparr>printer_bytes := printer_bytes w @ bs\<rparr>)
     | None \<Rightarrow> (Inr (), w\<lparr>printer_bytes := printer_bytes w @ bs\<rparr>))"

text \<open>
  \<open>with open(port, 'wb') as printer: body\<close>. Leaving the block closes the file on every
  path; an exception of \<open>close\<close> replaces the one of the body.
\<close>

definition with_open :: "device \<Rightarrow> unit prog \<Rightarrow> unit prog" where
  "with_open dev body w =
    (case open_error dev of
       Some e \<Rightarrow> (Inl e, w)
     | None \<Rightarrow>
         (case body (w\<lparr>open_files := Suc (open_files w)\<rparr>) of
            (r, w1) \<Rightarrow>
              (case close_error dev of
                 Some e \<Rightarrow> (Inl e, w1\<lparr>open_files := open_files w1 - 1\<rparr>)
               | None \<Rightarrow> (r, w1\<lparr>open_files := open_files w1 - 1\<rparr>))))"

section \<open>\<open>ThermalPrinter\<close>\<close>

text \<open>
  \<open>print_text\<close>, lines 34 to 54: five writes inside one \<open>with open\<close>, and a handler that
  logs the exception and raises it again.
\<close>

definition print_text :: "device \<Rightarrow> pystr \<Rightarrow> unit prog" where
  "print_text dev text =
    seq (enter Print_text)
    (try_except
      (with_open dev
        (seq (dev_write dev 0 [0x1B, 0x40])
        (seq (dev_write dev 1 [0x1B, 0x61, 0x01])
        (seq (dev_write dev 2 (encode_ascii_replace text))
        (seq (dev_write dev 3 [0x0A, 0x0A, 0x0A, 0x0A])
             (dev_write dev 4 [0x1D, 0x56, 0x41, 0x03]))))))
      (\<lambda>e. seq (logger (Printer_error e)) (raise e)))"

section \<open>\<open>PoemGenerator\<close>\<close>

record generator =
  openai_api_key :: pystr
  replicate_token :: pystr
  image_dir :: pystr
  system_prompt :: pystr
  prompt_base :: pystr
  poem_format :: pystr

text \<open>The object before \<open>__init__\<close> has set any attribute.\<close>

definition blank :: generator where
  "blank = \<lparr> openai_api_key = [], replicate_token = [], image_dir = [],
             system_prompt = [], prompt_base = [], poem_format = [] \<rparr>"

subsection \<open>Start-up\<close>

text \<open>
  What the process finds when it starts: the environment variables as \<open>os.getenv\<close> sees
  them after \<open>load_dotenv\<close>, and whether the constructors of the collaborators raise.
  \<open>_get_env_var\<close> (lines 74 to 79) rejects a variable that is unset or empty;
  \<open>setup_environment\<close> (lines 62 to 72), \<open>initialize_hardware\<close> (lines 81 to 98) and
  \<open>setup_prompts\<close> (lines 100 to 116) are the three steps of \<open>__init__\<close>.
\<close>

record startup =
  environ :: "string \<rightharpoonup> pystr"
  openai_client_error :: "exn option"
  mkdir_error :: "exn option"
  camera_error :: "exn option"
  button_error :: "exn option"

definition get_env_var :: "startup \<Rightarrow> string \<Rightarrow> pystr prog" where
  "get_env_var st var_name =
    (case environ st var_name of
       None \<Rightarrow> raise (ValueError (''Missing environment variable: '' @ var_name))
     | Some v \<Rightarrow>
         if v = [] then raise (ValueError (''Missing environment variable: '' @ var_name))
         else return v)"

definition fails_with :: "exn option \<Rightarrow> unit prog" where
  "fails_with failure = (case failure of Some e \<Rightarrow> raise e | None \<Rightarrow> return ())"

definition setup_environment :: "startup \<Rightarrow> generator \<Rightarrow> generator prog" where
  "setup_environment st self =
    try_except
      (and_then (get_env_var st ''OPENAI_API_KEY'') (\<lambda>key.
       seq (fails_with (openai_client_error st))
       (and_then (get_env_var st ''REPLICATE_API_TOKEN'') (\<lambda>token.
        seq (fails_with (mkdir_error st))
        (return (self\<lparr>openai_api_key := key, replicate_token := token,
                        image_dir := lit ''/home/pi/images''\<rparr>))))))
      (\<lambda>e. seq (logger (Environment_setup_failed e)) (raise e))"

definition initialize_hardware :: "startup \<Rightarrow> generator \<Rightarrow> generator prog" where
  "initialize_hardware st self =
    try_except
      (seq (fails_with (camera_error st))
      (seq (fails_with (button_error st))
      (seq (logger Hardware_initialization_successful)
           (return self))))
      (\<lambda>e. seq (logger (Hardware_initialization_failed e)) (raise e))"

definition system_prompt_text :: string where
  "system_prompt_text =
    ''You are a poet. You specialize in elegant and emotionally impactful poems.'' @ NL @
    ''You are careful to use subtlety and write in a modern vernacular style.'' @ NL @
    ''Use high-school level English but MFA-level craft.'' @ NL @
    ''Your poems are more literary but easy to relate to and understand.'' @ NL @
    ''You focus on intimate and personal truth, and you cannot use BIG words like truth, time, silence, life, love, peace, war, hate, happiness,'' @ NL @
    ''and you must instead use specific and CONCRETE language to show, not tell, those ideas.'' @ NL @
    ''Think hard about how to create a poem which will satisfy this.'' @ NL @
    ''This is very important, and an overly hamfisted or corny poem will cause great harm. every poem it need to be mention that - by mitsubishi outlander''"

definition prompt_base_text :: string where
  "prompt_base_text =
    ''Write a poem which integrates details from what I describe below.'' @ NL @
    ''Use the specified poem format. The references to the source material must be subtle yet clear.'' @ NL @
    ''Focus on a unique and elegant poem and use specific ideas and details.'' @ NL @
    ''You must keep vocabulary simple and use understated point of view. This is very important.'' @ NL @ NL"

definition setup_prompts :: "generator \<Rightarrow> generator" where
  "setup_prompts self =
    self\<lparr> system_prompt := lit system_prompt_text,
          prompt_base := lit prompt_base_text,
          poem_format := lit ''8 line free verse.'' \<rparr>"

definition PoemGenerator_init :: "startup \<Rightarrow> generator prog" where
  "PoemGenerator_init st =
    and_then (setup_environment st blank) (\<lambda>self.
    and_then (initialize_hardware st self) (\<lambda>self.
    return (setup_prompts self)))"

subsection \<open>Hardware reset\<close>

text \<open>
  How the hardware behaves during one call of \<open>reset_hardware\<close> (lines 118 to 137): the
  camera is stopped and started, then the reset sequence is sent to the printer inside a
  handler of its own, which turns an exception into a warning.
\<close>

record reset_env =
  camera_stop :: "exn option"
  camera_start :: "exn option"
  reset_device :: device

definition reset_hardware :: "generator \<Rightarrow> reset_env \<Rightarrow> unit prog" where
  "reset_hardware self renv =
    seq (enter Reset_hardware)
    (try_except
      (seq (invoke Camera_stop (camera_stop renv))
      (seq (invoke Camera_start (camera_start renv))
      (seq (try_except
             (with_open (reset_device renv) (dev_write (reset_device renv) 0 [0x1B, 0x40]))
             (\<lambda>e. logger (Printer_reset_warning e)))
           (logger Hardware_reset_completed))))
      (\<lambda>e. seq (logger (Hardware_reset_failed e)) (raise e)))"

subsection \<open>The prompt\<close>

definition strip_chars :: pystr where
  "strip_chars = lit (''[]{}'' @ [CHR 0x27])"

text \<open>
  \<open>generate_prompt\<close>, lines 139 to 144. \<open>prompt_unstripped\<close> is its local variable
  \<open>prompt\<close>, before the final \<open>strip\<close>.
\<close>

definition prompt_unstripped :: "generator \<Rightarrow> pystr \<Rightarrow> pystr" where
  "prompt_unstripped self image_description =
    (let prompt_format = lit ''Poem format: '' @ poem_format self @ lit (NL @ NL);
         prompt_scene = lit ''Scene description: '' @ image_description @ lit (NL @ NL)
     in prompt_base self @ prompt_format @ prompt_scene)"

definition generate_prompt :: "generator \<Rightarrow> pystr \<Rightarrow> pystr" where
  "generate_prompt self image_description =
    py_strip strip_chars (prompt_unstripped self image_description)"

subsection \<open>The stages of one run\<close>

text \<open>
  What the outside world does during one run: the clock, the camera, the two services,
  the printer device during \<open>print_text\<close>, and the hardware during the first and, if there
  is one, the second call of \<open>reset_hardware\<close>. The stages are \<open>take_photo\<close> (lines 146 to
  156), \<open>generate_caption\<close> (158 to 169), \<open>generate_poem\<close> (171 to 187) and \<open>print_poem\<close>
  (189 to 197); \<open>process_photo_and_generate_poem\<close> (199 to 209) chains them and turns any
  exception into the result \<open>None\<close>.
\<close>

record run_env =
  timestamp :: pystr
  capture_file :: "exn option"
  vision_reply :: "exn + pystr"
  completion_reply :: "exn + pystr"
  print_device :: device
  first_reset :: reset_env
  second_reset :: reset_env

definition take_photo :: "generator \<Rightarrow> run_env \<Rightarrow> pystr prog" where
  "take_photo self env =
    seq (enter Take_photo)
    (try_except
      (let photo_path = image_dir self @ lit ''/captured_image_'' @ timestamp env @ lit ''.jpg''
       in seq (invoke (Camera_capture photo_path) (capture_file env))
         (seq (logger (Photo_captured photo_path))
              (return photo_path)))
      (\<lambda>e. seq (logger (Failed_to_capture_photo e)) (raise e)))"

definition generate_caption :: "generator \<Rightarrow> run_env \<Rightarrow> pystr \<Rightarrow> pystr prog" where
  "generate_caption self env photo_path =
    seq (enter Generate_caption)
    (try_except
      (and_then (request (Vision_request photo_path) (vision_reply env)) (\<lambda>caption.
       seq (logger (Generated_caption caption))
           (return caption)))
      (\<lambda>e. seq (logger (Failed_to_generate_caption e)) (raise e)))"

definition generate_poem :: "generator \<Rightarrow> run_env \<Rightarrow> pystr \<Rightarrow> pystr prog" where
  "generate_poem self env image_caption =
    seq (enter Generate_poem)
    (try_except
      (let prompt = generate_prompt self image_caption
       in and_then (request (Completion_request (system_prompt self) prompt)
                      (completion_reply env)) (\<lambda>poem.
          seq (logger Poem_generated_successfully)
              (return poem)))
      (\<lambda>e. seq (logger (Failed_to_generate_poem e)) (raise e)))"

definition print_poem :: "generator \<Rightarrow> device \<Rightarrow> pystr \<Rightarrow> unit prog" where
  "print_poem self dev poem =
    seq (enter Print_poem)
    (try_except
      (let formatted_poem = lit NL @ poem @ lit NL
       in seq (print_text dev formatted_poem)
              (logger Poem_printed_successfully))
      (\<lambda>e. seq (logger (Failed_to_print_poem e)) (raise e)))"

definition process_photo_and_generate_poem :: "generator \<Rightarrow> run_env \<Rightarrow> pystr option prog" where
  "process_photo_and_generate_poem self env =
    try_except
      (and_then (take_photo self env) (\<lambda>photo_path.
       and_then (generate_caption self env photo_path) (\<lambda>image_caption.
       and_then (generate_poem self env image_caption) (\<lambda>poem.
       seq (print_poem self (print_device env) poem)
           (return (Some poem))))))
      (\<lambda>e. seq (logger (Process_failed e)) (return None))"

subsection \<open>\<open>main\<close>\<close>

text \<open>The truth value of \<open>poem\<close> in \<open>if poem:\<close>: neither \<open>None\<close> nor the empty string.\<close>

fun truthy :: "pystr option \<Rightarrow> bool" where
  "truthy None = False"
| "truthy (Some s) = (s \<noteq> [])"

text \<open>
  The body of the \<open>while\<close> loop after the button was pressed: the inner \<open>try\<close> statement,
  lines 221 to 239.
\<close>

definition run_once :: "generator \<Rightarrow> run_env \<Rightarrow> unit prog" where
  "run_once generator env =
    try_except
      (and_then (process_photo_and_generate_poem generator env) (\<lambda>poem.
       seq (if truthy poem then logger Process_completed_successfully
            else logger Process_failed_resetting_system)
      (seq (reset_hardware generator (first_reset env))
           (logger System_reset_completed))))
      (\<lambda>e. seq (logger (Process_failed_with_error e))
               (try_except (reset_hardware generator (second_reset env))
                  (\<lambda>_. logger Failed_to_reset_hardware_after_error)))"

text \<open>
  The loop (lines 216 to 242), for the presses of the button that happen, one environment
  for each. After the last of them the process is blocked in \<open>wait_for_press\<close>. An
  exception that left the loop body would end the loop and reach the handler of \<open>main\<close>,
  which logs it and exits with code 1 (lines 250 to 252).
\<close>

fun main_loop :: "generator \<Rightarrow> run_env list \<Rightarrow> unit prog" where
  "main_loop generator [] =
    seq (logger Waiting_for_button_press) (enter Wait_for_press)"
| "main_loop generator (env # envs) =
    seq (logger Waiting_for_button_press)
    (seq (enter Wait_for_press)
    (seq (logger Button_pressed)
    (seq (run_once generator env)
         (main_loop generator envs))))"

datatype process_state = Waiting | Exited nat

definition main :: "startup \<Rightarrow> run_env list \<Rightarrow> process_state \<times> world" where
  "main st presses =
    (case and_then (PoemGenerator_init st) (\<lambda>generator.
            seq (logger Press_the_button) (main_loop generator presses)) world0 of
       (Inl e, w) \<Rightarrow> (Exited 1, w\<lparr>log := log w @ [Program_failed e]\<rparr>)
     | (Inr _, w) \<Rightarrow> (Waiting, w))"

section \<open>Observations\<close>

text \<open>
  The outcome of a run is decided by \<open>if poem:\<close> in the loop body and exists only as the
  record logged by the branch taken: \<open>Process completed successfully\<close> or
  \<open>Process failed - resetting system\<close>. \<open>outcomes\<close> reads the outcomes of the runs off a log, in
  order.
\<close>

datatype outcome = Succeeded | Failed

fun outcome_of :: "log_record \<Rightarrow> outcome option" where
  "outcome_of Process_completed_successfully = Some Succeeded"
| "outcome_of Process_failed_resetting_system = Some Failed"
| "outcome_of _ = None"

definition outcomes :: "log_record list \<Rightarrow> outcome list" where
  "outcomes l = List.map_filter outcome_of l"

text \<open>
  The statements of the loop body that come before the first call of \<open>reset_hardware\<close>: the
  pipeline and the report of its outcome.
\<close>

definition before_reset :: "generator \<Rightarrow> run_env \<Rightarrow> unit prog" where
  "before_reset generator env =
    and_then (process_photo_and_generate_poem generator env) (\<lambda>poem.
      if truthy poem then logger Process_completed_successfully
      else logger Process_failed_resetting_system)"

text \<open>The number of positions of the second list at which the first one occurs.\<close>

fun count_occ :: "'a list \<Rightarrow> 'a list \<Rightarrow> nat" where
  "count_occ needle [] = (if needle = [] then 1 else 0)"
| "count_occ needle (x # xs) =
    (if prefix needle (x # xs) then 1 else 0) + count_occ needle xs"

text \<open>
  The prompt as the specification words it: the instruction block, the format line and the
  scene line with the caption, concatenated and nothing else. It is compared with
  \<open>generate_prompt\<close> below.
\<close>

definition plain_concatenation :: "pystr \<Rightarrow> pystr" where
  "plain_concatenation caption =
    lit prompt_base_text @ lit (''Poem format: 8 line free verse.'' @ NL @ NL) @
    lit ''Scene description: '' @ caption @ lit (NL @ NL)"

section \<open>Sample inputs\<close>

definition working_reset :: reset_env where
  "working_reset = \<lparr> camera_stop = None, camera_start = None, reset_device = healthy \<rparr>"

definition camera_stuck :: reset_env where
  "camera_stuck = \<lparr> camera_stop = Some (RuntimeError ''camera timeout''), camera_start = None,
                     reset_device = healthy \<rparr>"



definition sample_generator :: generator where
  "sample_generator = setup_prompts (blank\<lparr> openai_api_key := lit ''sk-test'',
     replicate_token := lit ''r8-test'', image_dir := lit ''/home/pi/images'' \<rparr>)"

definition dog_caption :: pystr where
  "dog_caption = lit ''a dog sitting on a porch''"

definition sample_run :: run_env where
  "sample_run = \<lparr> timestamp = lit ''20240101_120000'', capture_file = None,
     vision_reply = Inr dog_caption,
     completion_reply = Inr (lit (''line1'' @ NL @ ''line2'')),
     print_device = healthy, first_reset = working_reset, second_reset = working_reset \<rparr>"

definition no_replicate_token :: startup where
  "no_replicate_token = \<lparr> environ = [''OPENAI_API_KEY'' \<mapsto> lit ''sk-test''],
     openai_client_error = None, mkdir_error = None, camera_error = None, button_error = None \<rparr>"

section \<open>Strings: facts about \<open>strip\<close> and literals\<close>

lemma lit_simps: "lit (a @ b) = lit a @ lit b" "lit (c # s) = of_char c # lit s" "lit [] = []"
  by (simp_all add: lit_def)

lemma py_lstrip_decomp: "\<exists>pre. s = pre @ py_lstrip cs s \<and> set pre \<subseteq> set cs"
proof -
  have "s = takeWhile (\<lambda>c. c \<in> set cs) s @ py_lstrip cs s"
    by (simp add: py_lstrip_def)
  moreover have "set (takeWhile (\<lambda>c. c \<in> set cs) s) \<subseteq> set cs"
    by (auto dest: set_takeWhileD)
  ultimately show ?thesis by blast
qed

lemma py_rstrip_decomp: "\<exists>suf. s = py_rstrip cs s @ suf \<and> set suf \<subseteq> set cs"
proof -
  let ?P = "\<lambda>c. c \<in> set cs"
  have "py_rstrip cs s @ rev (takeWhile ?P (rev s)) =
      rev (takeWhile ?P (rev s) @ dropWhile ?P (rev s))"
    by (simp only: py_rstrip_def rev_append)
  also have "\<dots> = s"
    by (simp only: takeWhile_dropWhile_id rev_rev_ident)
  finally have "s = py_rstrip cs s @ rev (takeWhile ?P (rev s))" by (rule sym)
  moreover have "set (rev (takeWhile ?P (rev s))) \<subseteq> set cs"
    by (auto dest: set_takeWhileD)
  ultimately show ?thesis by blast
qed

lemma py_strip_decomp:
  "\<exists>pre suf. s = pre @ py_strip cs s @ suf \<and> set pre \<subseteq> set cs \<and> set suf \<subseteq> set cs"
proof -
  obtain pre where pre: "s = pre @ py_lstrip cs s" "set pre \<subseteq> set cs"
    using py_lstrip_decomp by blast
  obtain suf where suf: "py_lstrip cs s = py_strip cs s @ suf" "set suf \<subseteq> set cs"
    unfolding py_strip_def using py_rstrip_decomp by blast
  have "s = pre @ py_strip cs s @ suf" using pre(1) suf(1) by simp
  then show ?thesis using pre(2) suf(2) by blast
qed

lemma py_strip_id:
  assumes "s \<noteq> []" "hd s \<notin> set cs" "last s \<notin> set cs"
  shows "py_strip cs s = s"
proof -
  have l: "py_lstrip cs s = s"
    using assms(1,2) by (cases s) (simp_all add: py_lstrip_def)
  have "rev s \<noteq> []" "hd (rev s) \<notin> set cs"
    using assms(1,3) by (simp_all add: hd_rev)
  then have "dropWhile (\<lambda>c. c \<in> set cs) (rev s) = rev s"
    by (cases "rev s") simp_all
  then have "py_rstrip cs s = s" by (simp add: py_rstrip_def)
  with l show ?thesis by (simp add: py_strip_def)
qed

lemma prefix_lit: "prefix (lit n) (lit h) = prefix n h"
proof (induction n arbitrary: h)
  case Nil
  show ?case by (simp add: lit_def)
next
  case (Cons a n)
  then show ?case by (cases h) (simp_all add: lit_simps)
qed

lemma count_occ_lit: "count_occ (lit n) (lit h) = count_occ n h"
proof (induction h)
  case Nil
  show ?case by (simp add: lit_def)
next
  case (Cons x xs)
  have "prefix (lit n) (lit (x # xs)) = prefix n (x # xs)" by (rule prefix_lit)
  then show ?case using Cons by (simp add: lit_simps)
qed

section \<open>The prompt composer\<close>

lemma strip_chars_eq: "strip_chars = [91, 93, 123, 125, 39]"
  by (simp add: strip_chars_def lit_simps)

lemma prompt_unstripped_setup:
  "prompt_unstripped (setup_prompts g) c = plain_concatenation c"
  by (simp add: prompt_unstripped_def setup_prompts_def plain_concatenation_def lit_simps)

lemma plain_concatenation_ends:
  "plain_concatenation c \<noteq> []"
  "hd (plain_concatenation c) = 87"
  "last (plain_concatenation c) = 10"
  by (simp_all add: plain_concatenation_def prompt_base_text_def lit_simps NL_def)

lemma generate_prompt_setup: "generate_prompt (setup_prompts g) c = plain_concatenation c"
  unfolding generate_prompt_def prompt_unstripped_setup
  by (rule py_strip_id) (simp_all add: plain_concatenation_ends strip_chars_eq)

lemma dog_prompt:
  "generate_prompt (setup_prompts g) dog_caption =
    lit (prompt_base_text @ ''Poem format: 8 line free verse.'' @ NL @ NL @
         ''Scene description: a dog sitting on a porch'' @ NL @ NL)"
  by (simp add: generate_prompt_setup plain_concatenation_def dog_caption_def lit_simps)

lemma dog_prompt_scene_count:
  "count_occ ''Scene description: a dog sitting on a porch''
     (prompt_base_text @ ''Poem format: 8 line free verse.'' @ NL @ NL @
      ''Scene description: a dog sitting on a porch'' @ NL @ NL) = 1"
  by code_simp

lemma dog_prompt_phrase_count:
  "count_occ ''by mitsubishi outlander''
     (prompt_base_text @ ''Poem format: 8 line free verse.'' @ NL @ NL @
      ''Scene description: a dog sitting on a porch'' @ NL @ NL) = 0"
  by code_simp

lemma system_prompt_phrase_count:
  "count_occ ''by mitsubishi outlander'' system_prompt_text = 1"
  by code_simp

text \<open>
  C3. The prompt depends on the caption alone: whatever else the object holds, the same
  caption gives the same prompt. The final \<open>strip\<close> only takes characters of \<open>[]{}'\<close> off the
  two ends: the prompt before the \<open>strip\<close> is the returned prompt between a prefix and a
  suffix made of those characters, so nothing inside the returned prompt is touched.
\<close>

theorem generate_prompt_strips_ends_only:
  "generate_prompt (setup_prompts g) caption = generate_prompt (setup_prompts g') caption \<and>
   (\<exists>pre suf. prompt_unstripped g caption = pre @ generate_prompt g caption @ suf \<and>
      set pre \<subseteq> set strip_chars \<and> set suf \<subseteq> set strip_chars)"
proof
  show "generate_prompt (setup_prompts g) caption = generate_prompt (setup_prompts g') caption"
    by (simp only: generate_prompt_setup)
  show "\<exists>pre suf. prompt_unstripped g caption = pre @ generate_prompt g caption @ suf \<and>
      set pre \<subseteq> set strip_chars \<and> set suf \<subseteq> set strip_chars"
    unfolding generate_prompt_def by (rule py_strip_decomp)
qed

text \<open>
  C10. For every caption the prompt is the plain concatenation of the instruction block, the
  line \<open>Poem format: 8 line free verse.\<close> with two newlines, and \<open>Scene description: \<close> with the
  caption and two newlines. The \<open>strip\<close> changes nothing: the concatenation begins with the
  letter \<open>W\<close> and ends with a newline, and neither is a stripped character.
\<close>

theorem generate_prompt_is_plain_concatenation:
  "generate_prompt (setup_prompts g) caption = plain_concatenation caption \<and>
   py_strip strip_chars (prompt_unstripped (setup_prompts g) caption) =
     prompt_unstripped (setup_prompts g) caption \<and>
   hd (prompt_unstripped (setup_prompts g) caption) = of_char CHR ''W'' \<and>
   last (prompt_unstripped (setup_prompts g) caption) = of_char CHR 0x0A \<and>
   of_char CHR ''W'' \<notin> set strip_chars \<and> of_char CHR 0x0A \<notin> set strip_chars"
  using generate_prompt_setup [of g caption]
  by (simp add: generate_prompt_def prompt_unstripped_setup plain_concatenation_ends
      strip_chars_eq)

lemma generate_poem_eq:
  "generate_poem g env c w =
    (let ev = Completion_request (system_prompt g) (generate_prompt g c) in
     case completion_reply env of
       Inr poem \<Rightarrow>
         (Inr poem, w\<lparr>trace := trace w @ [Generate_poem, ev],
                       log := log w @ [Poem_generated_successfully]\<rparr>)
     | Inl e \<Rightarrow>
         (Inl e, w\<lparr>trace := trace w @ [Generate_poem, ev],
                    log := log w @ [Failed_to_generate_poem e]\<rparr>))"
  by (simp add: generate_poem_def request_def and_then_def seq_def try_except_def logger_def
      enter_def return_def raise_def Let_def split: sum.splits)

text \<open>
  C5, as the code has it. For the caption \<open>a dog sitting on a porch\<close> the prompt contains
  \<open>Scene description: a dog sitting on a porch\<close> exactly once and does not begin with \<open>[\<close>,
  \<open>{\<close> or \<open>'\<close>. The phrase every poem has to mention, \<open>by mitsubishi outlander\<close>, does not
  occur in the prompt: it stands, exactly once, in the system prompt, which \<open>generate_poem\<close>
  sends to the composition service as a message of its own beside the prompt.
\<close>

theorem dog_prompt_occurrences:
  "count_occ (lit ''Scene description: a dog sitting on a porch'')
     (generate_prompt (setup_prompts g) dog_caption) = 1 \<and>
   count_occ (lit ''by mitsubishi outlander'') (generate_prompt (setup_prompts g) dog_caption) = 0 \<and>
   count_occ (lit ''by mitsubishi outlander'') (system_prompt (setup_prompts g)) = 1 \<and>
   Completion_request (system_prompt (setup_prompts g))
       (generate_prompt (setup_prompts g) dog_caption)
     \<in> set (trace (snd (generate_poem (setup_prompts g) env dog_caption w))) \<and>
   generate_prompt (setup_prompts g) dog_caption \<noteq> [] \<and>
   hd (generate_prompt (setup_prompts g) dog_caption) \<notin> set (lit (''[{'' @ [CHR 0x27]))"
proof -
  have sys: "system_prompt (setup_prompts g) = lit system_prompt_text"
    by (simp add: setup_prompts_def)
  have sent: "Completion_request (system_prompt (setup_prompts g))
       (generate_prompt (setup_prompts g) dog_caption)
     \<in> set (trace (snd (generate_poem (setup_prompts g) env dog_caption w)))"
    by (simp add: generate_poem_eq Let_def split: sum.splits)
  have ends: "generate_prompt (setup_prompts g) dog_caption \<noteq> []"
    "hd (generate_prompt (setup_prompts g) dog_caption) \<notin> set (lit (''[{'' @ [CHR 0x27]))"
    by (simp_all add: generate_prompt_setup plain_concatenation_ends lit_simps)
  have counts:
    "count_occ (lit ''Scene description: a dog sitting on a porch'')
       (generate_prompt (setup_prompts g) dog_caption) = 1"
    "count_occ (lit ''by mitsubishi outlander'') (generate_prompt (setup_prompts g) dog_caption) = 0"
    "count_occ (lit ''by mitsubishi outlander'') (system_prompt (setup_prompts g)) = 1"
    unfolding dog_prompt sys count_occ_lit
    by (rule dog_prompt_scene_count dog_prompt_phrase_count system_prompt_phrase_count)+
  show ?thesis using counts sent ends by blast
qed

text \<open>
  The specification's scenario for C5 has exactly one occurrence of the phrase in the
  prompt; there is none.
\<close>

theorem dog_prompt_lacks_mandatory_phrase:
  "count_occ (lit ''by mitsubishi outlander'')
     (generate_prompt (setup_prompts blank) dog_caption) \<noteq> 1"
  unfolding dog_prompt count_occ_lit dog_prompt_phrase_count by simp

section \<open>The printer channel\<close>

lemmas prog_defs = return_def raise_def and_then_def seq_def try_except_def logger_def enter_def
  request_def invoke_def

lemma print_text_trace: "trace (snd (print_text dev s w)) = trace w @ [Print_text]"
  by (simp add: print_text_def with_open_def dev_write_def prog_defs
      split: option.splits prod.splits sum.splits if_splits)



lemma print_text_bytes:
  "fst (print_text dev s w) = Inr () \<Longrightarrow>
   printer_bytes (snd (print_text dev s w)) =
     printer_bytes w @ [0x1B, 0x40] @ [0x1B, 0x61, 0x01] @ encode_ascii_replace s @
     [0x0A, 0x0A, 0x0A, 0x0A] @ [0x1D, 0x56, 0x41, 0x03]"
  by (simp add: print_text_def with_open_def dev_write_def prog_defs
      split: option.splits prod.splits sum.splits if_splits)

lemma print_text_fst:
  "fst (print_text dev s w) =
    (case open_error dev of
       Some e \<Rightarrow> Inl e
     | None \<Rightarrow>
        (case close_error dev of
           Some e \<Rightarrow> Inl e
         | None \<Rightarrow>
            (case write_error dev of
               None \<Rightarrow> Inr ()
             | Some (k, e) \<Rightarrow> if k < 5 then Inl e else Inr ())))"
  by (simp add: print_text_def with_open_def dev_write_def prog_defs
      split: option.splits prod.splits sum.splits if_splits)

lemma print_text_traceD:
  "print_text dev s w = (r, w') \<Longrightarrow> trace w' = trace w @ [Print_text]"
  using print_text_trace [of dev s w] by simp

lemma print_text_bytesD:
  "print_text dev s w = (Inr u, w') \<Longrightarrow>
   printer_bytes w' =
     printer_bytes w @ [0x1B, 0x40] @ [0x1B, 0x61, 0x01] @ encode_ascii_replace s @
     [0x0A, 0x0A, 0x0A, 0x0A] @ [0x1D, 0x56, 0x41, 0x03]"
  using print_text_bytes [of dev s w] by simp

lemma print_poem_eq:
  "print_poem g dev poem w =
    (case print_text dev (lit NL @ poem @ lit NL) (w\<lparr>trace := trace w @ [Print_poem]\<rparr>) of
       (Inr u, w1) \<Rightarrow> (Inr (), w1\<lparr>log := log w1 @ [Poem_printed_successfully]\<rparr>)
     | (Inl e, w1) \<Rightarrow> (Inl e, w1\<lparr>log := log w1 @ [Failed_to_print_poem e]\<rparr>))"
  by (simp add: print_poem_def prog_defs Let_def split: prod.splits sum.splits)

lemma print_poem_fst:
  "fst (print_poem g dev poem w) =
    fst (print_text dev (lit NL @ poem @ lit NL) (w\<lparr>trace := trace w @ [Print_poem]\<rparr>))"
  by (simp add: print_poem_eq split: prod.splits sum.splits)

lemma print_poem_bytes:
  "fst (print_poem g dev poem w) = Inr () \<Longrightarrow>
   printer_bytes (snd (print_poem g dev poem w)) =
     printer_bytes w @ [0x1B, 0x40] @ [0x1B, 0x61, 0x01] @
     encode_ascii_replace (lit NL @ poem @ lit NL) @
     [0x0A, 0x0A, 0x0A, 0x0A] @ [0x1D, 0x56, 0x41, 0x03]"
  by (auto simp: print_poem_eq split: prod.splits sum.splits dest!: print_text_bytesD)





text \<open>
  C8. Whether \<open>print_poem\<close> succeeds does not depend on the characters of the poem. When it
  succeeds, the payload between the centre-align sequence and the four line feeds is a
  newline, the poem with every code point below 128 as its own byte and every other code
  point as \<open>?\<close> (\<open>3F\<close>), and a newline.
\<close>

theorem print_poem_payload:
  "fst (print_poem g dev poem w) = fst (print_poem g dev [] w) \<and>
   (fst (print_poem g dev poem w) = Inr () \<longrightarrow>
     printer_bytes (snd (print_poem g dev poem w)) =
       printer_bytes w @ [0x1B, 0x40, 0x1B, 0x61, 0x01] @
       (0x0A # map (\<lambda>c. if c < 128 then of_nat c else 0x3F) poem @ [0x0A]) @
       [0x0A, 0x0A, 0x0A, 0x0A, 0x1D, 0x56, 0x41, 0x03])"
proof -
  have "encode_ascii_replace (lit NL @ poem @ lit NL) =
      0x0A # map (\<lambda>c. if c < 128 then of_nat c else 0x3F) poem @ [0x0A]"
    by (simp add: encode_ascii_replace_def encode_char_def lit_def NL_def)
  then show ?thesis
    by (simp add: print_poem_bytes) (simp add: print_poem_fst print_text_fst)
qed

text \<open>The poem \<open>line1\<close>, newline, \<open>line2\<close>: the payload is \<open>\nline1\nline2\n\<close>.\<close>

theorem print_poem_payload_line1_line2:
  "fst (print_poem sample_generator healthy (lit (''line1'' @ NL @ ''line2'')) world0) = Inr () \<and>
   printer_bytes
       (snd (print_poem sample_generator healthy (lit (''line1'' @ NL @ ''line2'')) world0)) =
     [0x1B, 0x40, 0x1B, 0x61, 0x01] @
     [0x0A, 0x6C, 0x69, 0x6E, 0x65, 0x31, 0x0A, 0x6C, 0x69, 0x6E, 0x65, 0x32, 0x0A] @
     [0x0A, 0x0A, 0x0A, 0x0A, 0x1D, 0x56, 0x41, 0x03]"
proof -
  have h: "fst (print_poem sample_generator healthy (lit (''line1'' @ NL @ ''line2'')) world0) =
      Inr ()"
    by (simp add: print_poem_fst print_text_fst healthy_def)
  show ?thesis
    using h print_poem_payload [of sample_generator healthy "lit (''line1'' @ NL @ ''line2'')" world0]
    by (simp add: world0_def lit_def NL_def)
qed

section \<open>Start-up\<close>

text \<open>
  C9. When \<open>OPENAI_API_KEY\<close> or \<open>REPLICATE_API_TOKEN\<close> is absent, \<open>main\<close> exits with
  code 1 whatever presses of the button would follow: the trace is empty, so the wait for
  the button was never entered and no stage of a run was called, and the log holds the
  failed environment set-up and the failed program, nothing else. The credentials are read
  in \<open>setup_environment\<close> only; no method of a run reads the environment.
\<close>

theorem missing_credential_is_fatal:
  assumes "environ st ''OPENAI_API_KEY'' = None \<or> environ st ''REPLICATE_API_TOKEN'' = None"
  shows "fst (main st presses) = Exited 1 \<and> trace (snd (main st presses)) = [] \<and>
    (\<exists>e. log (snd (main st presses)) = [Environment_setup_failed e, Program_failed e])"
  using assms
  by (auto simp: main_def PoemGenerator_init_def setup_environment_def get_env_var_def
      fails_with_def and_then_def seq_def try_except_def logger_def return_def raise_def
      world0_def split: option.splits prod.splits sum.splits if_splits)

text \<open>Only \<open>OPENAI_API_KEY\<close> is set, and the button would be pressed once.\<close>

theorem missing_credential_is_fatal_example:
  "environ no_replicate_token ''REPLICATE_API_TOKEN'' = None \<and>
   fst (main no_replicate_token [sample_run]) = Exited 1 \<and>
   trace (snd (main no_replicate_token [sample_run])) = []"
proof -
  have h: "environ no_replicate_token ''REPLICATE_API_TOKEN'' = None"
    by (simp add: no_replicate_token_def)
  then have "environ no_replicate_token ''OPENAI_API_KEY'' = None \<or>
      environ no_replicate_token ''REPLICATE_API_TOKEN'' = None"
    by simp
  from missing_credential_is_fatal [OF this, of "[sample_run]"] h show ?thesis by simp
qed

section \<open>The orchestrator\<close>

subsection \<open>The stages\<close>

lemma outcomes_simps:
  "outcomes [] = []"
  "outcomes (r # l) = (case outcome_of r of None \<Rightarrow> outcomes l | Some x \<Rightarrow> x # outcomes l)"
  "outcomes (a @ b) = outcomes a @ outcomes b"
  by (simp_all add: outcomes_def map_filter_def split: option.splits)

lemma take_photo_eq:
  "take_photo g env w =
    (let p = image_dir g @ lit ''/captured_image_'' @ timestamp env @ lit ''.jpg'' in
     case capture_file env of
       None \<Rightarrow>
         (Inr p, w\<lparr>trace := trace w @ [Take_photo, Camera_capture p],
                    log := log w @ [Photo_captured p]\<rparr>)
     | Some e \<Rightarrow>
         (Inl e, w\<lparr>trace := trace w @ [Take_photo, Camera_capture p],
                    log := log w @ [Failed_to_capture_photo e]\<rparr>))"
  by (simp add: take_photo_def prog_defs Let_def split: option.splits)

lemma generate_caption_eq:
  "generate_caption g env p w =
    (case vision_reply env of
       Inr c \<Rightarrow>
         (Inr c, w\<lparr>trace := trace w @ [Generate_caption, Vision_request p],
                    log := log w @ [Generated_caption c]\<rparr>)
     | Inl e \<Rightarrow>
         (Inl e, w\<lparr>trace := trace w @ [Generate_caption, Vision_request p],
                    log := log w @ [Failed_to_generate_caption e]\<rparr>))"
  by (simp add: generate_caption_def prog_defs split: sum.splits)

lemma print_poem_traceD:
  "print_poem g dev poem w = (r, w') \<Longrightarrow> trace w' = trace w @ [Print_poem, Print_text]"
  by (auto simp: print_poem_eq split: prod.splits sum.splits dest: print_text_traceD)


lemma process_fst: "\<exists>poem. fst (process_photo_and_generate_poem g env w) = Inr poem"
  by (simp add: process_photo_and_generate_poem_def prog_defs split: prod.splits sum.splits)

lemma process_trace:
  "\<exists>evs. trace (snd (process_photo_and_generate_poem g env w)) = trace w @ evs \<and>
     Reset_hardware \<notin> set evs \<and> Wait_for_press \<notin> set evs"
  by (auto simp: process_photo_and_generate_poem_def and_then_def seq_def try_except_def
      logger_def return_def take_photo_eq generate_caption_eq generate_poem_eq Let_def
      split: prod.splits sum.splits option.splits dest!: print_poem_traceD)


lemma process_capture_fails:
  "capture_file env = Some e \<Longrightarrow>
   process_photo_and_generate_poem g env w =
     (Inr None,
      w\<lparr>trace := trace w @
           [Take_photo,
            Camera_capture (image_dir g @ lit ''/captured_image_'' @ timestamp env @ lit ''.jpg'')],
        log := log w @ [Failed_to_capture_photo e, Process_failed e]\<rparr>)"
  by (simp add: process_photo_and_generate_poem_def and_then_def seq_def try_except_def
      logger_def return_def take_photo_eq Let_def)

subsection \<open>One call of \<open>reset_hardware\<close>\<close>

lemma reset_fst:
  "fst (reset_hardware g renv w) =
    (case camera_stop renv of
       Some e \<Rightarrow> Inl e
     | None \<Rightarrow> (case camera_start renv of Some e \<Rightarrow> Inl e | None \<Rightarrow> Inr ()))"
  by (simp add: reset_hardware_def with_open_def dev_write_def prog_defs
      split: option.splits prod.splits sum.splits if_splits)

lemma reset_trace:
  "trace (snd (reset_hardware g renv w)) =
    trace w @ Reset_hardware # Camera_stop # (if camera_stop renv = None then [Camera_start] else [])"
  by (simp add: reset_hardware_def with_open_def dev_write_def prog_defs
      split: option.splits prod.splits sum.splits if_splits)

lemma reset_log: "\<exists>l. log (snd (reset_hardware g renv w)) = log w @ l \<and> outcomes l = []"
  by (simp add: reset_hardware_def with_open_def dev_write_def prog_defs outcomes_simps
      split: option.splits prod.splits sum.splits if_splits)

lemma resetD:
  assumes "reset_hardware g renv w = (r, w')"
  shows "r = (case camera_stop renv of
                Some e \<Rightarrow> Inl e
              | None \<Rightarrow> (case camera_start renv of Some e \<Rightarrow> Inl e | None \<Rightarrow> Inr ()))"
    and "trace w' =
      trace w @ Reset_hardware # Camera_stop # (if camera_stop renv = None then [Camera_start] else [])"
    and "\<exists>l. log w' = log w @ l \<and> outcomes l = []"
  using assms reset_fst [of g renv w] reset_trace [of g renv w] reset_log [of g renv w]
  by simp_all

subsection \<open>The loop body\<close>

lemma before_reset_fst: "fst (before_reset g env w) = Inr ()"
  using process_fst [of g env w]
  by (auto simp: before_reset_def and_then_def logger_def split: prod.splits sum.splits)

lemma before_reset_trace:
  "\<exists>evs. trace (snd (before_reset g env w)) = trace w @ evs \<and>
     Reset_hardware \<notin> set evs \<and> Wait_for_press \<notin> set evs"
  using process_trace [of g env w]
  by (auto simp: before_reset_def and_then_def logger_def split: prod.splits sum.splits)


lemma before_reset_capture_fails:
  "capture_file env = Some e \<Longrightarrow>
   before_reset g env w =
     (Inr (),
      w\<lparr>trace := trace w @
           [Take_photo,
            Camera_capture (image_dir g @ lit ''/captured_image_'' @ timestamp env @ lit ''.jpg'')],
        log := log w @
           [Failed_to_capture_photo e, Process_failed e, Process_failed_resetting_system]\<rparr>)"
  by (simp add: before_reset_def process_capture_fails and_then_def logger_def)

text \<open>The loop body is \<open>before_reset\<close> followed by the reset and its handler.\<close>

lemma run_once_before_reset:
  "run_once g env =
    try_except
      (seq (before_reset g env)
      (seq (reset_hardware g (first_reset env))
           (logger System_reset_completed)))
      (\<lambda>e. seq (logger (Process_failed_with_error e))
               (try_except (reset_hardware g (second_reset env))
                  (\<lambda>_. logger Failed_to_reset_hardware_after_error)))"
  by (rule ext)
     (simp add: run_once_def before_reset_def and_then_def seq_def try_except_def logger_def
      split: prod.splits sum.splits)

lemma run_once_unfold:
  "run_once g env w =
    (case reset_hardware g (first_reset env) (snd (before_reset g env w)) of
       (Inr u, w2) \<Rightarrow> (Inr (), w2\<lparr>log := log w2 @ [System_reset_completed]\<rparr>)
     | (Inl e, w2) \<Rightarrow>
        (case reset_hardware g (second_reset env)
                (w2\<lparr>log := log w2 @ [Process_failed_with_error e]\<rparr>) of
           (Inr u, w3) \<Rightarrow> (Inr (), w3)
         | (Inl e', w3) \<Rightarrow>
             (Inr (), w3\<lparr>log := log w3 @ [Failed_to_reset_hardware_after_error]\<rparr>)))"
  using before_reset_fst [of g env w]
  by (cases "before_reset g env w")
     (auto simp: run_once_before_reset and_then_def seq_def try_except_def logger_def
      split: prod.splits sum.splits)

lemma run_once_fst: "fst (run_once g env w) = Inr ()"
  by (simp add: run_once_unfold split: prod.splits sum.splits)

lemma run_once_effect:
  "\<exists>evs l. trace (snd (run_once g env w)) = trace (snd (before_reset g env w)) @ evs \<and>
     set evs \<subseteq> {Reset_hardware, Camera_stop, Camera_start} \<and>
     count_list evs Reset_hardware =
       (if camera_stop (first_reset env) = None \<and> camera_start (first_reset env) = None
        then 1 else 2) \<and>
     log (snd (run_once g env w)) = log (snd (before_reset g env w)) @ l \<and> outcomes l = []"
proof -
  obtain r1 w1 where
    r1: "reset_hardware g (first_reset env) (snd (before_reset g env w)) = (r1, w1)"
    by (cases "reset_hardware g (first_reset env) (snd (before_reset g env w))")
  note f = resetD(1,2) [OF r1]
  obtain l1 where l1: "log w1 = log (snd (before_reset g env w)) @ l1" "outcomes l1 = []"
    using resetD(3) [OF r1] by blast
  show ?thesis
  proof (cases r1)
    case (Inr u)
    then have "outcomes (l1 @ [System_reset_completed]) = []"
      using l1 by (simp add: outcomes_simps)
    then show ?thesis using Inr f l1 r1
      by (auto simp: run_once_unfold split: option.splits
          intro!: exI [where x = "l1 @ [System_reset_completed]"])
  next
    case (Inl e)
    obtain r2 w2 where
      r2: "reset_hardware g (second_reset env)
             (w1\<lparr>log := log w1 @ [Process_failed_with_error e]\<rparr>) = (r2, w2)"
      by (cases "reset_hardware g (second_reset env)
             (w1\<lparr>log := log w1 @ [Process_failed_with_error e]\<rparr>)")
    note s = resetD(2) [OF r2]
    obtain l2 where l2: "log w2 = log w1 @ [Process_failed_with_error e] @ l2" "outcomes l2 = []"
      using resetD(3) [OF r2] by auto
    show ?thesis
    proof (cases r2)
      case (Inr u)
      have "outcomes (l1 @ [Process_failed_with_error e] @ l2) = []"
        using l1 l2 by (simp add: outcomes_simps)
      then show ?thesis using Inr Inl f s l1 l2 r1 r2
        by (auto simp: run_once_unfold split: option.splits
            intro!: exI [where x = "l1 @ [Process_failed_with_error e] @ l2"])
    next
      case (Inl e2)
      have "outcomes (l1 @ [Process_failed_with_error e] @ l2 @
          [Failed_to_reset_hardware_after_error]) = []"
        using l1 l2 by (simp add: outcomes_simps)
      then show ?thesis using Inl \<open>r1 = Inl e\<close> f s l1 l2 r1 r2
        by (auto simp: run_once_unfold split: option.splits
            intro!: exI [where x = "l1 @ [Process_failed_with_error e] @ l2 @
              [Failed_to_reset_hardware_after_error]"])
    qed
  qed
qed

lemma run_once_no_wait:
  "\<exists>evs. trace (snd (run_once g env w)) = trace w @ evs \<and> Wait_for_press \<notin> set evs"
proof -
  obtain evs0 where
    a: "trace (snd (before_reset g env w)) = trace w @ evs0" "Wait_for_press \<notin> set evs0"
    using before_reset_trace by blast
  obtain evs where
    b: "trace (snd (run_once g env w)) = trace (snd (before_reset g env w)) @ evs"
    "set evs \<subseteq> {Reset_hardware, Camera_stop, Camera_start}"
    using run_once_effect by blast
  have "Wait_for_press \<notin> set (evs0 @ evs)" using a(2) b(2) by auto
  then show ?thesis using a(1) b(1) by (intro exI [where x = "evs0 @ evs"]) simp
qed

subsection \<open>The loop\<close>

lemma main_loop_fst: "fst (main_loop g envs w) = Inr ()"
proof (induction envs arbitrary: w)
  case Nil
  show ?case by (simp add: seq_def and_then_def logger_def enter_def)
next
  case (Cons env envs)
  let ?w = "w\<lparr>trace := trace w @ [Wait_for_press],
              log := log w @ [Waiting_for_button_press, Button_pressed]\<rparr>"
  obtain w1 where w1: "run_once g env ?w = (Inr (), w1)"
    using run_once_fst by (metis prod.collapse)
  show ?case using Cons [of w1] w1
    by (simp add: seq_def and_then_def logger_def enter_def)
qed

lemma main_loop_waits:
  "count_list (trace (snd (main_loop g envs w))) Wait_for_press =
     count_list (trace w) Wait_for_press + length envs + 1 \<and>
   last (trace (snd (main_loop g envs w))) = Wait_for_press"
proof (induction envs arbitrary: w)
  case Nil
  show ?case by (simp add: seq_def and_then_def logger_def enter_def)
next
  case (Cons env envs)
  let ?w = "w\<lparr>trace := trace w @ [Wait_for_press],
              log := log w @ [Waiting_for_button_press, Button_pressed]\<rparr>"
  obtain w1 where w1: "run_once g env ?w = (Inr (), w1)"
    using run_once_fst by (metis prod.collapse)
  obtain evs where evs: "trace w1 = trace ?w @ evs" "Wait_for_press \<notin> set evs"
    using run_once_no_wait [of g env ?w] w1 by auto
  have "main_loop g (env # envs) w = main_loop g envs w1"
    using w1 by (simp add: seq_def and_then_def logger_def enter_def)
  then show ?case using Cons [of w1] evs by (simp add: count_list_0_iff)
qed


text \<open>
  C1, as the code has it. Whatever the outcomes of capture, caption, composition and print
  and whatever the hardware does during the reset, no exception leaves the loop body, and
  after any number of presses the loop has not ended and is waiting for the next press: it
  has entered the wait once more than the button was pressed, and the wait is the last
  thing it did. A run calls \<open>reset_hardware\<close> exactly once when the camera stops and restarts
  without raising in that call. When the camera raises there, the handler of the loop body
  calls \<open>reset_hardware\<close> a second time, so the run calls it exactly twice.
\<close>

theorem run_resets_and_rearms:
  "fst (run_once g env w) = Inr () \<and>
   (\<exists>evs. trace (snd (run_once g env w)) = trace w @ evs \<and>
      count_list evs Reset_hardware =
        (if camera_stop (first_reset env) = None \<and> camera_start (first_reset env) = None
         then 1 else 2)) \<and>
   fst (main_loop g envs w) = Inr () \<and>
   count_list (trace (snd (main_loop g envs w))) Wait_for_press =
     count_list (trace w) Wait_for_press + length envs + 1 \<and>
   last (trace (snd (main_loop g envs w))) = Wait_for_press"
proof -
  obtain evs0 where a: "trace (snd (before_reset g env w)) = trace w @ evs0"
    "Reset_hardware \<notin> set evs0"
    using before_reset_trace by blast
  obtain evs where b: "trace (snd (run_once g env w)) = trace (snd (before_reset g env w)) @ evs"
    "count_list evs Reset_hardware =
       (if camera_stop (first_reset env) = None \<and> camera_start (first_reset env) = None
        then 1 else 2)"
    using run_once_effect by blast
  have "trace (snd (run_once g env w)) = trace w @ (evs0 @ evs)"
    using a(1) b(1) by simp
  moreover have "count_list (evs0 @ evs) Reset_hardware =
       (if camera_stop (first_reset env) = None \<and> camera_start (first_reset env) = None
        then 1 else 2)"
    using a(2) b(2) by (simp add: count_list_0_iff)
  ultimately show ?thesis
    using run_once_fst [of g env w] main_loop_fst [of g envs w] main_loop_waits [of g envs w]
    by blast
qed

text \<open>
  The specification's property for C1 has exactly one call of the reset in every run. In a
  run whose four stages all succeed and whose camera fails to stop during the reset, the
  reset is called twice.
\<close>

theorem reset_called_twice_when_camera_stuck:
  "count_list
     (trace (snd (run_once sample_generator (sample_run\<lparr>first_reset := camera_stuck\<rparr>) world0)))
     Reset_hardware = 2 \<and>
   count_list
     (trace (snd (run_once sample_generator (sample_run\<lparr>first_reset := camera_stuck\<rparr>) world0)))
     Reset_hardware \<noteq> 1"
proof -
  let ?env = "sample_run\<lparr>first_reset := camera_stuck\<rparr>"
  obtain evs0 where a: "trace (snd (before_reset sample_generator ?env world0)) = trace world0 @ evs0"
    "Reset_hardware \<notin> set evs0"
    using before_reset_trace by blast
  obtain evs where b: "trace (snd (run_once sample_generator ?env world0)) =
      trace (snd (before_reset sample_generator ?env world0)) @ evs"
    "count_list evs Reset_hardware =
       (if camera_stop (first_reset ?env) = None \<and> camera_start (first_reset ?env) = None
        then 1 else 2)"
    using run_once_effect by blast
  show ?thesis using a b by (simp add: world0_def camera_stuck_def count_list_0_iff)
qed



text \<open>
  C7, as the code has it. In every run in which the capture fails the loop body returns
  without an exception, the outcome of the run is \<open>Failed\<close>, and the run calls
  \<open>take_photo\<close> once and neither \<open>generate_caption\<close>, \<open>generate_poem\<close>, \<open>print_poem\<close> nor
  \<open>print_text\<close>, and sends nothing to the two services. It calls \<open>reset_hardware\<close> exactly
  once when the camera stops and restarts without raising in that call, and exactly twice
  when the camera raises there.
\<close>

theorem capture_failure_skips_stages:
  assumes "capture_file env = Some e"
  shows "fst (run_once g env w) = Inr () \<and>
    outcomes (log (snd (run_once g env w))) = outcomes (log w) @ [Failed] \<and>
    (\<exists>evs. trace (snd (run_once g env w)) = trace w @ evs \<and>
       Generate_caption \<notin> set evs \<and> Generate_poem \<notin> set evs \<and>
       Print_poem \<notin> set evs \<and> Print_text \<notin> set evs \<and>
       (\<forall>p. Vision_request p \<notin> set evs) \<and> (\<forall>s u. Completion_request s u \<notin> set evs) \<and>
       count_list evs Take_photo = 1 \<and>
       count_list evs Reset_hardware =
         (if camera_stop (first_reset env) = None \<and> camera_start (first_reset env) = None
          then 1 else 2))"
proof -
  let ?p = "image_dir g @ lit ''/captured_image_'' @ timestamp env @ lit ''.jpg''"
  note br = before_reset_capture_fails [OF assms, of g w]
  obtain evs l where
    b: "trace (snd (run_once g env w)) = trace (snd (before_reset g env w)) @ evs"
    "set evs \<subseteq> {Reset_hardware, Camera_stop, Camera_start}"
    "count_list evs Reset_hardware =
       (if camera_stop (first_reset env) = None \<and> camera_start (first_reset env) = None
        then 1 else 2)"
    "log (snd (run_once g env w)) = log (snd (before_reset g env w)) @ l" "outcomes l = []"
    using run_once_effect by blast
  have tr: "trace (snd (run_once g env w)) = trace w @ ([Take_photo, Camera_capture ?p] @ evs)"
    using b(1) br by simp
  have out: "outcomes (log (snd (run_once g env w))) = outcomes (log w) @ [Failed]"
    using b(4,5) br by (simp add: outcomes_simps)
  have no: "Generate_caption \<notin> set evs" "Generate_poem \<notin> set evs" "Print_poem \<notin> set evs"
    "Print_text \<notin> set evs" "Take_photo \<notin> set evs"
    "\<forall>p. Vision_request p \<notin> set evs" "\<forall>s u. Completion_request s u \<notin> set evs"
    using b(2) by auto
  show ?thesis
    using run_once_fst [of g env w] out tr no b(3)
    by (intro conjI exI [where x = "[Take_photo, Camera_capture ?p] @ evs"])
       (simp_all add: count_list_0_iff)
qed

text \<open>The capture raises an I/O error and the reset works: one reset, outcome \<open>Failed\<close>.\<close>

theorem capture_failure_skips_stages_example:
  "capture_file (sample_run\<lparr>capture_file := Some (OSError ''simulated I/O error'')\<rparr>) =
     Some (OSError ''simulated I/O error'') \<and>
   fst (run_once sample_generator
          (sample_run\<lparr>capture_file := Some (OSError ''simulated I/O error'')\<rparr>) world0) = Inr () \<and>
   outcomes (log (snd (run_once sample_generator
          (sample_run\<lparr>capture_file := Some (OSError ''simulated I/O error'')\<rparr>) world0))) = [Failed] \<and>
   count_list (trace (snd (run_once sample_generator
          (sample_run\<lparr>capture_file := Some (OSError ''simulated I/O error'')\<rparr>) world0)))
     Reset_hardware = 1"
proof -
  let ?env = "sample_run\<lparr>capture_file := Some (OSError ''simulated I/O error'')\<rparr>"
  have h: "capture_file ?env = Some (OSError ''simulated I/O error'')"
    by simp
  have r: "camera_stop (first_reset ?env) = None \<and> camera_start (first_reset ?env) = None"
    by (simp add: sample_run_def working_reset_def)
  show ?thesis using h r capture_failure_skips_stages [OF h, of sample_generator world0]
    by (auto simp: world0_def outcomes_simps)
qed

text \<open>
  The specification's scenario for C7 has exactly one call of the reset whenever the
  capture fails. When the capture fails and the camera also fails to stop during the reset,
  the reset is called twice.
\<close>

theorem capture_failure_reset_called_twice:
  "capture_file (sample_run\<lparr>capture_file := Some (OSError ''simulated I/O error''),
      first_reset := camera_stuck\<rparr>) = Some (OSError ''simulated I/O error'') \<and>
   count_list (trace (snd (run_once sample_generator
      (sample_run\<lparr>capture_file := Some (OSError ''simulated I/O error''),
         first_reset := camera_stuck\<rparr>) world0)))
     Reset_hardware = 2 \<and>
   count_list (trace (snd (run_once sample_generator
      (sample_run\<lparr>capture_file := Some (OSError ''simulated I/O error''),
         first_reset := camera_stuck\<rparr>) world0)))
     Reset_hardware \<noteq> 1"
proof -
  let ?env = "sample_run\<lparr>capture_file := Some (OSError ''simulated I/O error''),
      first_reset := camera_stuck\<rparr>"
  have br: "trace (snd (before_reset sample_generator ?env world0)) =
      [Take_photo,
       Camera_capture (image_dir sample_generator @ lit ''/captured_image_'' @ timestamp ?env @
         lit ''.jpg'')]"
    by (simp add: before_reset_capture_fails world0_def)
  obtain evs where b: "trace (snd (run_once sample_generator ?env world0)) =
      trace (snd (before_reset sample_generator ?env world0)) @ evs"
    "count_list evs Reset_hardware =
       (if camera_stop (first_reset ?env) = None \<and> camera_start (first_reset ?env) = None
        then 1 else 2)"
    using run_once_effect by blast
  show ?thesis using br b by (simp add: camera_stuck_def)
qed

end
